theory Spec2Isabelle
  imports Main "HOL-Library.Word"
begin

unbundle bit_operations_syntax

section \<open>Machine integers of the template\<close>

text \<open>
  The file is written for GCC on a 64-bit target (it includes \<^verbatim>\<open>bits/stdc++.h\<close> and the
  pb_ds containers): \<^verbatim>\<open>int\<close> and \<^verbatim>\<open>unsigned\<close> have 32 bits, \<^verbatim>\<open>long\<close>,
  \<^verbatim>\<open>long long\<close> and their unsigned variants have 64 bits. A value is its bit pattern;
  \<open>sint\<close> reads a signed type, \<open>uint\<close>/\<open>unat\<close> an unsigned one. A conversion to a
  narrower type keeps the low bits (\<open>ucast\<close>), a conversion from a signed type to a wider
  one extends the sign (\<open>scast\<close>).
\<close>

type_synonym cint = "32 word"
type_synonym cuint = "32 word"
type_synonym clong = "64 word"
type_synonym culong = "64 word"
type_synonym ll = "64 word"
type_synonym ull = "64 word"

section \<open>amin and amax\<close>

text \<open>
  \<^verbatim>\<open>template<typename T, typename U> inline void amin(T &x, U y){if(y < x) x = y;}\<close>
  \<^verbatim>\<open>template<typename T, typename U> inline void amax(T &x, U y){if(y > x) x = y;}\<close>

  The two type parameters are independent. What \<^verbatim>\<open>y < x\<close> means for a \<open>'u\<close> and a \<open>'t\<close>
  (the comparison after the usual arithmetic conversions) and how the assignment
  \<^verbatim>\<open>x = y\<close> converts a \<open>'u\<close> to a \<open>'t\<close> are fixed by the instantiation, so the model takes
  both as arguments. The result is the new value of the reference \<^verbatim>\<open>x\<close>.
\<close>

definition amin :: "('u \<Rightarrow> 't \<Rightarrow> bool) \<Rightarrow> ('u \<Rightarrow> 't) \<Rightarrow> 't \<Rightarrow> 'u \<Rightarrow> 't" where
  "amin lt conv x y = (if lt y x then conv y else x)"

definition amax :: "('u \<Rightarrow> 't \<Rightarrow> bool) \<Rightarrow> ('u \<Rightarrow> 't) \<Rightarrow> 't \<Rightarrow> 'u \<Rightarrow> 't" where
  "amax gt conv x y = (if gt y x then conv y else x)"







section \<open>Bit helpers\<close>

text \<open>
  Every helper shifts the 64-bit constant \<^verbatim>\<open>1ULL\<close> by the \<^verbatim>\<open>int\<close> argument \<^verbatim>\<open>b\<close>.
  The shift is undefined for a negative count and for a count of 64 or more; the model
  returns \<open>None\<close> there.
\<close>

definition shl_1ULL :: "cint \<Rightarrow> ull option" where
  "shl_1ULL b =
     (if 0 \<le> sint b \<and> sint b < 64 then Some (push_bit (nat (sint b)) 1) else None)"

text \<open>\<^verbatim>\<open>!!v\<close> for an \<^verbatim>\<open>unsigned long long\<close> \<^verbatim>\<open>v\<close>, returned as \<^verbatim>\<open>int\<close>.\<close>

definition not_not :: "ull \<Rightarrow> cint" where
  "not_not v = (if v = 0 then 0 else 1)"

text \<open>\<^verbatim>\<open>void setBit(int &a, int b) { a |= int(1ULL<<b);}\<close>\<close>

definition setBit_int :: "cint \<Rightarrow> cint \<Rightarrow> cint option" where
  "setBit_int a b =
     (case shl_1ULL b of None \<Rightarrow> None | Some m \<Rightarrow> Some (a OR (ucast m :: cint)))"

text \<open>\<^verbatim>\<open>void setBit(ll &a, int b) {a |= ll(1ULL<<b);}\<close>\<close>

definition setBit_ll :: "ll \<Rightarrow> cint \<Rightarrow> ll option" where
  "setBit_ll a b = (case shl_1ULL b of None \<Rightarrow> None | Some m \<Rightarrow> Some (a OR m))"

text \<open>\<^verbatim>\<open>void clearBit(int &a, int b) { a &= int(~(1ULL<<b));}\<close>\<close>

definition clearBit_int :: "cint \<Rightarrow> cint \<Rightarrow> cint option" where
  "clearBit_int a b =
     (case shl_1ULL b of None \<Rightarrow> None | Some m \<Rightarrow> Some (a AND (ucast (NOT m) :: cint)))"

text \<open>\<^verbatim>\<open>void clearBit(ll &a, int b) { a &= ll(~(1ULL<<b));}\<close>\<close>

definition clearBit_ll :: "ll \<Rightarrow> cint \<Rightarrow> ll option" where
  "clearBit_ll a b = (case shl_1ULL b of None \<Rightarrow> None | Some m \<Rightarrow> Some (a AND NOT m))"

text \<open>\<^verbatim>\<open>void toggleBit(int &a, int b) { a ^= int(1ULL<<b);}\<close>\<close>

definition toggleBit_int :: "cint \<Rightarrow> cint \<Rightarrow> cint option" where
  "toggleBit_int a b =
     (case shl_1ULL b of None \<Rightarrow> None | Some m \<Rightarrow> Some (a XOR (ucast m :: cint)))"

text \<open>\<^verbatim>\<open>void toggleBit(ll &a, int b) { a ^= ll(1ULL<<b);}\<close>\<close>

definition toggleBit_ll :: "ll \<Rightarrow> cint \<Rightarrow> ll option" where
  "toggleBit_ll a b = (case shl_1ULL b of None \<Rightarrow> None | Some m \<Rightarrow> Some (a XOR m))"

text \<open>
  \<^verbatim>\<open>int checkBit(int a, int b) {return !!(a & (1ULL<<b));}\<close>
  The \<^verbatim>\<open>int\<close> operand is converted to \<^verbatim>\<open>unsigned long long\<close>, which extends its sign.
\<close>

definition checkBit_int :: "cint \<Rightarrow> cint \<Rightarrow> cint option" where
  "checkBit_int a b =
     (case shl_1ULL b of None \<Rightarrow> None | Some m \<Rightarrow> Some (not_not ((scast a :: ull) AND m)))"

text \<open>\<^verbatim>\<open>int checkBit(ll a, int b) {return !!(a & (1ULL<<b));}\<close>\<close>

definition checkBit_ll :: "ll \<Rightarrow> cint \<Rightarrow> cint option" where
  "checkBit_ll a b =
     (case shl_1ULL b of None \<Rightarrow> None | Some m \<Rightarrow> Some (not_not (a AND m)))"

section \<open>Stream text and the input/output helpers\<close>

text \<open>
  An output stream is the text written to it so far; a function that writes takes the
  text and returns it extended. The macro \<^verbatim>\<open>endl\<close> is the string \<^verbatim>\<open>"\n"\<close>.
\<close>

definition endl :: string where
  "endl = [CHR 0x0A]"

text \<open>
  \<^verbatim>\<open>template<typename... Args> void read(Args&... args){((cin >> args), ...);}\<close>

  The fold over the comma operator evaluates \<^verbatim>\<open>cin >> args\<close> for each argument in turn.
  Which \<^verbatim>\<open>operator>>\<close> is called depends on the type of the argument, so each argument
  is given by its extraction: a function from the state of \<^verbatim>\<open>cin\<close> to the value the
  variable holds afterwards and the new state of \<^verbatim>\<open>cin\<close>. The result lists the values of
  the variables in argument order.
\<close>

fun read :: "('s \<Rightarrow> 'v \<times> 's) list \<Rightarrow> 's \<Rightarrow> 'v list \<times> 's" where
  "read [] cin = ([], cin)"
| "read (arg # args) cin =
     (case arg cin of (v, cin1) \<Rightarrow> (case read args cin1 of (vs, cin2) \<Rightarrow> (v # vs, cin2)))"

text \<open>
  The extraction of a \<^verbatim>\<open>std::string\<close> from a stream whose unread input is given, as the
  standard library does it with the default flags: leading white space is skipped, then
  the characters up to the next white space are taken. At the end of the input nothing
  is stored and the variable keeps its old value.
\<close>

definition isspace :: "char \<Rightarrow> bool" where
  "isspace c = (c \<in> set [CHR '' '', CHR 0x09, CHR 0x0A, CHR 0x0B, CHR 0x0C, CHR 0x0D])"

definition cin_string :: "string \<Rightarrow> string \<Rightarrow> string \<times> string" where
  "cin_string old unread =
     (let rest = dropWhile isspace unread
      in if rest = [] then (old, [])
         else (takeWhile (\<lambda>c. \<not> isspace c) rest, dropWhile (\<lambda>c. \<not> isspace c) rest))"

text \<open>
  \<^verbatim>\<open>#define sz(x) int((x).size())\<close>: the 64-bit size is converted to \<^verbatim>\<open>int\<close>, which keeps
  its low 32 bits.
\<close>

definition sz :: "'a list \<Rightarrow> int" where
  "sz x = sint (word_of_nat (length x) :: cint)"

text \<open>
  \<^verbatim>\<open>template<typename T> void print(vec<T> v){FOR(i, 0, sz(v)) cout << v[i] << " \n"[i==sz(v)-1];}\<close>
  with \<^verbatim>\<open>#define FOR(i, a, b) for(auto i = (a); i < (b); i++)\<close>.

  This is the overload of \<^verbatim>\<open>print\<close> for vectors. The loop variable is an \<^verbatim>\<open>int\<close> that
  starts at 0; it stays below \<^verbatim>\<open>sz(v)\<close>, so it never overflows and \<^verbatim>\<open>v[i]\<close> is always
  inside the vector. \<open>shw\<close> is the text \<^verbatim>\<open>operator<<\<close> writes for an element, \<open>cout\<close> the
  text written to standard output so far.
\<close>

function print_loop :: "('a \<Rightarrow> string) \<Rightarrow> 'a list \<Rightarrow> int \<Rightarrow> string \<Rightarrow> string" where
  "print_loop shw v i cout =
     (if i < sz v
      then print_loop shw v (i + 1)
             (cout @ shw (v ! nat i) @ [if i = sz v - 1 then CHR 0x0A else CHR '' ''])
      else cout)"
  by pat_completeness auto
termination
  by (relation "measure (\<lambda>(shw, v, i, cout). nat (sz v - i))") auto

declare print_loop.simps [simp del]

definition print_vec :: "('a \<Rightarrow> string) \<Rightarrow> 'a list \<Rightarrow> string \<Rightarrow> string" where
  "print_vec shw v cout = print_loop shw v 0 cout"

section \<open>The debug stringifier\<close>

text \<open>
  What \<^verbatim>\<open>operator<<\<close> writes for an integer with the default flags: its decimal digits,
  after a minus sign when it is negative.
\<close>

definition digit_char :: "nat \<Rightarrow> char" where
  "digit_char d = ''0123456789'' ! d"

function dec_nat :: "nat \<Rightarrow> string" where
  "dec_nat n = (if n < 10 then [digit_char n] else dec_nat (n div 10) @ [digit_char (n mod 10)])"
  by pat_completeness auto
termination
  by (relation "measure (\<lambda>n. n)") auto

declare dec_nat.simps [simp del]

definition dec_int :: "int \<Rightarrow> string" where
  "dec_int i = (if i < 0 then CHR ''-'' # dec_nat (nat (- i)) else dec_nat (nat i))"

text \<open>
  What \<^verbatim>\<open>operator<<\<close> writes for a \<^verbatim>\<open>float\<close>, a \<^verbatim>\<open>double\<close> and a \<^verbatim>\<open>long double\<close> is
  decided by the standard library's floating-point formatting, which is not part of the
  file. A floating-point value is its bit pattern (32, 64 and 80 bits on the target) and
  the three formatting functions are taken as a parameter.
\<close>

type_synonym cfloat = "32 word"
type_synonym cdouble = "64 word"
type_synonym clongdouble = "80 word"

record float_output =
  put_float :: "cfloat \<Rightarrow> string"
  put_double :: "cdouble \<Rightarrow> string"
  put_long_double :: "clongdouble \<Rightarrow> string"

text \<open>
  \<^verbatim>\<open>template<typename T> void toBin(T a) {cerr << "[" << bitset<8*sizeof(a)>(a) << "]";}\<close>
  A bitset is written from its highest bit down.
\<close>

definition bitset_string :: "'a::len word \<Rightarrow> string" where
  "bitset_string w = map (\<lambda>i. if bit w i then CHR ''1'' else CHR ''0'') (rev [0..<LENGTH('a)])"

definition toBin :: "'a::len word \<Rightarrow> string \<Rightarrow> string" where
  "toBin a cerr = cerr @ ''['' @ bitset_string a @ '']''"

text \<open>
  The overloads of \<^verbatim>\<open>_cerr\<close>, one definition each, in the order of the file. They are
  defined above the line \<^verbatim>\<open>#define cerr if(false)cerr\<close>, so they write to the error
  stream in both build modes.

  \<^verbatim>\<open>void _cerr(int x, bool b=false) {cerr << x; if(b)toBin(x);}\<close> and likewise for
  \<^verbatim>\<open>long\<close>, \<^verbatim>\<open>long long\<close> and \<^verbatim>\<open>unsigned\<close>.
\<close>

definition cerr_int :: "cint \<Rightarrow> bool \<Rightarrow> string \<Rightarrow> string" where
  "cerr_int x b cerr =
     (let cerr1 = cerr @ dec_int (sint x) in if b then toBin x cerr1 else cerr1)"

definition cerr_long :: "clong \<Rightarrow> bool \<Rightarrow> string \<Rightarrow> string" where
  "cerr_long x b cerr =
     (let cerr1 = cerr @ dec_int (sint x) in if b then toBin x cerr1 else cerr1)"

definition cerr_ll :: "ll \<Rightarrow> bool \<Rightarrow> string \<Rightarrow> string" where
  "cerr_ll x b cerr =
     (let cerr1 = cerr @ dec_int (sint x) in if b then toBin x cerr1 else cerr1)"

definition cerr_unsigned :: "cuint \<Rightarrow> bool \<Rightarrow> string \<Rightarrow> string" where
  "cerr_unsigned x b cerr =
     (let cerr1 = cerr @ dec_nat (unat x) in if b then toBin x cerr1 else cerr1)"

text \<open>
  \<^verbatim>\<open>void _cerr(unsigned long x, bool b=false) {cerr << x;}\<close>
  \<^verbatim>\<open>void _cerr(unsigned long long x, bool b=false) {cerr << x;}\<close>
\<close>

definition cerr_ulong :: "culong \<Rightarrow> bool \<Rightarrow> string \<Rightarrow> string" where
  "cerr_ulong x b cerr = cerr @ dec_nat (unat x)"

definition cerr_ull :: "ull \<Rightarrow> bool \<Rightarrow> string \<Rightarrow> string" where
  "cerr_ull x b cerr = cerr @ dec_nat (unat x)"

text \<open>
  \<^verbatim>\<open>void _cerr(float x, bool b=false) {cerr << x;}\<close>
  \<^verbatim>\<open>void _cerr(double x, bool b=false) {cerr << x;}\<close>
  \<^verbatim>\<open>void _cerr(long double x, bool b=false) {cerr << x;}\<close>
\<close>

definition cerr_float :: "float_output \<Rightarrow> cfloat \<Rightarrow> bool \<Rightarrow> string \<Rightarrow> string" where
  "cerr_float fmt x b cerr = cerr @ put_float fmt x"

definition cerr_double :: "float_output \<Rightarrow> cdouble \<Rightarrow> bool \<Rightarrow> string \<Rightarrow> string" where
  "cerr_double fmt x b cerr = cerr @ put_double fmt x"

definition cerr_long_double ::
  "float_output \<Rightarrow> clongdouble \<Rightarrow> bool \<Rightarrow> string \<Rightarrow> string" where
  "cerr_long_double fmt x b cerr = cerr @ put_long_double fmt x"

text \<open>\<^verbatim>\<open>void _cerr(char x, bool b=false) {cerr << "\'" << x << "\'"; if(b)toBin(x);}\<close>\<close>

definition cerr_char :: "char \<Rightarrow> bool \<Rightarrow> string \<Rightarrow> string" where
  "cerr_char x b cerr =
     (let cerr1 = cerr @ [CHR 0x27] @ [x] @ [CHR 0x27]
      in if b then toBin (of_char x :: 8 word) cerr1 else cerr1)"

text \<open>
  \<^verbatim>\<open>void _cerr(const char *x, bool b=false) {cerr << "\"" << x << "\"";}\<close>
  \<^verbatim>\<open>void _cerr(const string &x, bool b=false) {cerr << "\"" << x << "\"";}\<close>
  A C string is given by the characters before its terminating zero.
\<close>

definition cerr_cstr :: "string \<Rightarrow> bool \<Rightarrow> string \<Rightarrow> string" where
  "cerr_cstr x b cerr = cerr @ [CHR 0x22] @ x @ [CHR 0x22]"

definition cerr_string :: "string \<Rightarrow> bool \<Rightarrow> string \<Rightarrow> string" where
  "cerr_string x b cerr = cerr @ [CHR 0x22] @ x @ [CHR 0x22]"

text \<open>\<^verbatim>\<open>void _cerr(bool x, bool b=false) {cerr << (x ? "true" : "false"); if(b)toBin(x);}\<close>\<close>

definition cerr_bool :: "bool \<Rightarrow> bool \<Rightarrow> string \<Rightarrow> string" where
  "cerr_bool x b cerr =
     (let cerr1 = cerr @ (if x then ''true'' else ''false'')
      in if b then toBin ((if x then 1 else 0) :: 8 word) cerr1 else cerr1)"

text \<open>
  \<^verbatim>\<open>template<size_t N>\<close>
  \<^verbatim>\<open>void _cerr(const bitset<N> &x, bool b=false) {FOR(i,0,N)cerr<<x[i]?1:0;}\<close>

  A \<^verbatim>\<open>bitset<N>\<close> is the list of its \<open>N\<close> bits, position 0 first. The statement of the
  loop body parses as \<^verbatim>\<open>(cerr << x[i]) ? 1 : 0\<close>: it writes the bit, a \<^verbatim>\<open>bool\<close>, as
  \<^verbatim>\<open>1\<close> or \<^verbatim>\<open>0\<close>. The loop variable is an \<^verbatim>\<open>int\<close> that starts at 0 and only grows, so
  its conversion to \<^verbatim>\<open>size_t\<close> in \<^verbatim>\<open>i < N\<close> keeps its value; incrementing it at
  \<^verbatim>\<open>INT_MAX\<close> is undefined, which the model returns as \<open>None\<close>.
\<close>

definition INT_MAX :: int where
  "INT_MAX = 2147483647"

function bitset_loop :: "bool list \<Rightarrow> int \<Rightarrow> string \<Rightarrow> string option" where
  "bitset_loop x i cerr =
     (if 0 \<le> i \<and> i < int (length x)
      then (let cerr1 = cerr @ (if x ! nat i then ''1'' else ''0'')
            in if i = INT_MAX then None else bitset_loop x (i + 1) cerr1)
      else Some cerr)"
  by pat_completeness auto
termination
  by (relation "measure (\<lambda>(x, i, cerr). length x - nat i)") auto

declare bitset_loop.simps [simp del]

definition cerr_bitset :: "bool list \<Rightarrow> bool \<Rightarrow> string \<Rightarrow> string option" where
  "cerr_bitset x b cerr = bitset_loop x 0 cerr"

text \<open>
  \<^verbatim>\<open>template<typename T, typename U>\<close>
  \<^verbatim>\<open>void _cerr(const pair<T, U> &x, bool b=false){cerr << "{";_cerr(x.F,b);cerr<<", ";_cerr(x.S,b);cerr<<"}";}\<close>

  The calls \<^verbatim>\<open>_cerr(x.F,b)\<close> and \<^verbatim>\<open>_cerr(x.S,b)\<close> are resolved among the overloads
  declared above the pair template and the pair template itself; the container template
  is declared below it and is not found from here, so a pair with a container inside
  does not compile. A value that can stand inside a pair is therefore a \<open>pval\<close>: a value
  of one of the types above or a pair of such values. \<open>cerr_pval\<close> is the overload
  resolution on these values; its last equation is the body of the pair template.
\<close>

datatype pval =
    PInt cint
  | PLong clong
  | PLongLong ll
  | PUnsigned cuint
  | PULong culong
  | PULongLong ull
  | PFloat cfloat
  | PDouble cdouble
  | PLongDouble clongdouble
  | PChar char
  | PCStr string
  | PString string
  | PBool bool
  | PBitset "bool list"
  | PPair pval pval

fun cerr_pval :: "float_output \<Rightarrow> pval \<Rightarrow> bool \<Rightarrow> string \<Rightarrow> string option" where
  "cerr_pval fmt (PInt x) b cerr = Some (cerr_int x b cerr)"
| "cerr_pval fmt (PLong x) b cerr = Some (cerr_long x b cerr)"
| "cerr_pval fmt (PLongLong x) b cerr = Some (cerr_ll x b cerr)"
| "cerr_pval fmt (PUnsigned x) b cerr = Some (cerr_unsigned x b cerr)"
| "cerr_pval fmt (PULong x) b cerr = Some (cerr_ulong x b cerr)"
| "cerr_pval fmt (PULongLong x) b cerr = Some (cerr_ull x b cerr)"
| "cerr_pval fmt (PFloat x) b cerr = Some (cerr_float fmt x b cerr)"
| "cerr_pval fmt (PDouble x) b cerr = Some (cerr_double fmt x b cerr)"
| "cerr_pval fmt (PLongDouble x) b cerr = Some (cerr_long_double fmt x b cerr)"
| "cerr_pval fmt (PChar x) b cerr = Some (cerr_char x b cerr)"
| "cerr_pval fmt (PCStr x) b cerr = Some (cerr_cstr x b cerr)"
| "cerr_pval fmt (PString x) b cerr = Some (cerr_string x b cerr)"
| "cerr_pval fmt (PBool x) b cerr = Some (cerr_bool x b cerr)"
| "cerr_pval fmt (PBitset x) b cerr = cerr_bitset x b cerr"
| "cerr_pval fmt (PPair xF xS) b cerr =
     (case cerr_pval fmt xF b (cerr @ ''{'') of
        None \<Rightarrow> None
      | Some cerr2 \<Rightarrow>
          (case cerr_pval fmt xS b (cerr2 @ '', '') of
             None \<Rightarrow> None
           | Some cerr4 \<Rightarrow> Some (cerr4 @ ''}'')))"

text \<open>
  \<^verbatim>\<open>template<typename T>\<close>
  \<^verbatim>\<open>void _cerr(const T &x, bool b=false){int f=0;cerr<<"{";FORE(i,x)cerr<<(f++?", ":""),_cerr(i,b);cerr<<"}";}\<close>

  Every other argument is taken as a container and its elements are written in iteration
  order. The counter \<^verbatim>\<open>f\<close> is an \<^verbatim>\<open>int\<close>; incrementing it at \<^verbatim>\<open>INT_MAX\<close> is undefined,
  which the model returns as \<open>None\<close>. A debug value is a \<open>pval\<close> or a container of debug
  values.
\<close>

datatype dval = Plain pval | Container "dval list"

fun cerr_dval :: "float_output \<Rightarrow> dval \<Rightarrow> bool \<Rightarrow> string \<Rightarrow> string option"
  and cerr_elems :: "float_output \<Rightarrow> dval list \<Rightarrow> int \<Rightarrow> bool \<Rightarrow> string \<Rightarrow> string option"
where
  "cerr_dval fmt (Plain p) b cerr = cerr_pval fmt p b cerr"
| "cerr_dval fmt (Container x) b cerr =
     (case cerr_elems fmt x 0 b (cerr @ ''{'') of
        None \<Rightarrow> None
      | Some cerr1 \<Rightarrow> Some (cerr1 @ ''}''))"
| "cerr_elems fmt [] f b cerr = Some cerr"
| "cerr_elems fmt (i # rest) f b cerr =
     (if f = INT_MAX then None
      else (case cerr_dval fmt i b (cerr @ (if f \<noteq> 0 then '', '' else '''')) of
              None \<Rightarrow> None
            | Some cerr1 \<Rightarrow> cerr_elems fmt rest (f + 1) b cerr1))"

section \<open>The debug macros\<close>

text \<open>
  Outside judge mode \<^verbatim>\<open>debug(args...)\<close> expands to
  \<^verbatim>\<open>{string _s=#args;replace(_s.begin(),_s.end(),',',' ');\<close>
  \<^verbatim>\<open>stringstream _ss(_s);istream_iterator<string> _it(_ss);err(_it, args);}\<close>
  and in judge mode to \<^verbatim>\<open>{}\<close>.

  The iterator reads the white-space separated words of the text one by one; it is
  modelled by the list of the words still to come, the empty list being the
  end-of-stream iterator.
\<close>

definition replace_commas :: "string \<Rightarrow> string" where
  "replace_commas s = map (\<lambda>c. if c = CHR '','' then CHR '' '' else c) s"

function istream_words :: "string \<Rightarrow> string list" where
  "istream_words s =
     (let rest = dropWhile isspace s
      in if rest = [] then []
         else takeWhile (\<lambda>c. \<not> isspace c) rest
                # istream_words (dropWhile (\<lambda>c. \<not> isspace c) rest))"
  by pat_completeness auto
termination
proof (relation "measure length")
  show "wf (measure length)" by simp
next
  fix s rest :: string
  assume r: "rest = dropWhile isspace s" and ne: "rest \<noteq> []"
  from ne obtain c cs where cs: "rest = c # cs" by (cases rest) auto
  have "dropWhile isspace s = c # cs"
    using r cs by simp
  then have "\<not> isspace c"
    by (simp add: dropWhile_eq_Cons_conv)
  then have "length (dropWhile (\<lambda>c. \<not> isspace c) rest) \<le> length cs"
    by (simp add: cs length_dropWhile_le)
  moreover have "length rest \<le> length s"
    by (simp add: r length_dropWhile_le)
  ultimately show "(dropWhile (\<lambda>c. \<not> isspace c) rest, s) \<in> measure length"
    by (simp add: cs)
qed

declare istream_words.simps [simp del]

text \<open>
  \<^verbatim>\<open>void err(istream_iterator<string> it) {cerr << endl;}\<close>
  \<^verbatim>\<open>template<typename T, typename... Args>\<close>
  \<^verbatim>\<open>void err(istream_iterator<string> it,T a,Args... args){cerr<<*it<<" = ";_cerr(a);cerr<<endl;err(++it,args...);}\<close>

  These functions stand below \<^verbatim>\<open>#define cerr if(false)cerr\<close>: in judge mode their own
  writes to \<^verbatim>\<open>cerr\<close> are switched off, while the call of \<^verbatim>\<open>_cerr\<close> still writes.
  Reading or advancing the end-of-stream iterator is undefined (\<open>None\<close>).
  \<^verbatim>\<open>errbin\<close> differs only in calling \<^verbatim>\<open>_cerr(a,1)\<close>.
\<close>

fun err ::
  "float_output \<Rightarrow> bool \<Rightarrow> string list \<Rightarrow> dval list \<Rightarrow> string \<Rightarrow> string option" where
  "err fmt judge it [] cerr = Some (if judge then cerr else cerr @ endl)"
| "err fmt judge it (a # args) cerr =
     (case it of
        [] \<Rightarrow> None
      | name # it1 \<Rightarrow>
          (case cerr_dval fmt a False (if judge then cerr else cerr @ name @ '' = '') of
             None \<Rightarrow> None
           | Some cerr1 \<Rightarrow> err fmt judge it1 args (if judge then cerr1 else cerr1 @ endl)))"

fun errbin ::
  "float_output \<Rightarrow> bool \<Rightarrow> string list \<Rightarrow> dval list \<Rightarrow> string \<Rightarrow> string option" where
  "errbin fmt judge it [] cerr = Some (if judge then cerr else cerr @ endl)"
| "errbin fmt judge it (a # args) cerr =
     (case it of
        [] \<Rightarrow> None
      | name # it1 \<Rightarrow>
          (case cerr_dval fmt a True (if judge then cerr else cerr @ name @ '' = '') of
             None \<Rightarrow> None
           | Some cerr1 \<Rightarrow> errbin fmt judge it1 args (if judge then cerr1 else cerr1 @ endl)))"

text \<open>
  The macros themselves. \<open>judge\<close> says whether \<^verbatim>\<open>ONLINE_JUDGE\<close> is defined, \<open>text\<close> is
  the source text of the macro's arguments (\<^verbatim>\<open>#args\<close>), \<open>args\<close> their values.
\<close>

definition debug ::
  "float_output \<Rightarrow> bool \<Rightarrow> string \<Rightarrow> dval list \<Rightarrow> string \<Rightarrow> string option" where
  "debug fmt judge text args cerr =
     (if judge then Some cerr
      else err fmt judge (istream_words (replace_commas text)) args cerr)"

definition debugbin ::
  "float_output \<Rightarrow> bool \<Rightarrow> string \<Rightarrow> dval list \<Rightarrow> string \<Rightarrow> string option" where
  "debugbin fmt judge text args cerr =
     (if judge then Some cerr
      else errbin fmt judge (istream_words (replace_commas text)) args cerr)"

section \<open>The program\<close>

text \<open>
  The state of the process as far as the file touches it: what the standard input and
  output streams are attached to, how many characters have been extracted from
  \<^verbatim>\<open>cin\<close>, the text written to \<^verbatim>\<open>cout\<close> and to \<^verbatim>\<open>cerr\<close>, and the two stream settings
  \<^verbatim>\<open>main\<close> changes. \<^verbatim>\<open>freopen(path, mode, stream)\<close> attaches the stream to the named
  file; the file system is not part of the model.
\<close>

datatype file_binding = Terminal | Reopened string string

definition freopen :: "string \<Rightarrow> string \<Rightarrow> file_binding \<Rightarrow> file_binding" where
  "freopen path mode stream = Reopened path mode"

record program_state =
  stdin_file :: file_binding
  stdout_file :: file_binding
  cin_extracted :: nat
  cout_written :: string
  cerr_written :: string
  sync_with_stdio :: bool
  cin_tied :: bool

definition process_start :: program_state where
  "process_start =
     \<lparr>stdin_file = Terminal, stdout_file = Terminal, cin_extracted = 0,
      cout_written = [], cerr_written = [], sync_with_stdio = True, cin_tied = True\<rparr>"

text \<open>\<^verbatim>\<open>void solve(){ }\<close>\<close>

definition solve :: "program_state \<Rightarrow> program_state" where
  "solve st = st"

text \<open>
  The integer division of C++ truncates towards zero.
\<close>

definition cpp_div :: "int \<Rightarrow> int \<Rightarrow> int" where
  "cpp_div a b = sgn a * sgn b * (\<bar>a\<bar> div \<bar>b\<bar>)"

text \<open>
  \<^verbatim>\<open>chrono::duration_cast<chrono::milliseconds>(end-start)\<close> and \<^verbatim>\<open>duration.count()\<close>.
  The two readings of \<^verbatim>\<open>chrono::high_resolution_clock::now()\<close> are signed 64-bit counts
  of nanoseconds. Their difference is formed in 64 bits, where the compiled subtraction
  wraps around, and is then divided by 1000000; the result is the signed 64-bit count
  of milliseconds.
\<close>

definition elapsed_ms :: "64 word \<Rightarrow> 64 word \<Rightarrow> int" where
  "elapsed_ms start end = cpp_div (sint (end - start)) 1000000"

text \<open>
  \<^verbatim>\<open>int main()\<close>. \<open>judge\<close> says whether \<^verbatim>\<open>ONLINE_JUDGE\<close> is defined; \<open>start\<close> and
  \<open>end\<close> are the two clock readings (they are taken only outside judge mode).
\<close>

definition main :: "bool \<Rightarrow> 64 word \<Rightarrow> 64 word \<Rightarrow> program_state \<Rightarrow> program_state" where
  "main judge start end st =
     (let st1 = (if judge then st
                 else st\<lparr>stdin_file := freopen ''input.txt'' ''r'' (stdin_file st),
                        stdout_file := freopen ''output.txt'' ''w'' (stdout_file st)\<rparr>);
          st2 = st1\<lparr>sync_with_stdio := False, cin_tied := False\<rparr>;
          st3 = solve st2
      in if judge then st3
         else st3\<lparr>cerr_written :=
                   cerr_written st3 @ endl @ ''Time: '' @ dec_int (elapsed_ms start end)
                     @ ''ms'' @ endl\<rparr>)"

section \<open>Properties of the bit helpers\<close>

lemma shl_1ULL_Some:
  "0 \<le> sint b \<Longrightarrow> sint b < 64 \<Longrightarrow> shl_1ULL b = Some (2 ^ nat (sint b))"
  by (simp add: shl_1ULL_def)

lemma not_not_bit: "not_not (w AND 2 ^ n) = (if bit w n then 1 else 0)"
  by (simp add: not_not_def and_exp_eq_0_iff_not_bit)

lemma not_not_cases: "not_not v = 0 \<or> not_not v = 1"
  by (simp add: not_not_def)

lemma bit_scast_low: "n < 32 \<Longrightarrow> bit (scast (a :: cint) :: ull) n = bit a n"
  by (simp add: bit_simps)

lemma clear_int_bit: "n < 32 \<Longrightarrow> \<not> bit (a AND (ucast (NOT (2 ^ n :: ull)) :: cint)) n"
  by (simp add: bit_simps)

lemma set_int_bit: "n < 32 \<Longrightarrow> bit (a OR (ucast (2 ^ n :: ull) :: cint)) n"
  by (simp add: bit_simps)

lemma clear_ll_bit: "n < 64 \<Longrightarrow> \<not> bit (a AND NOT (2 ^ n :: ull)) n"
  by (simp add: bit_simps)

lemma set_ll_bit: "n < 64 \<Longrightarrow> bit (a OR (2 ^ n :: ull)) n"
  by (simp add: bit_simps)

lemma xor_twice: "(a XOR m) XOR m = (a :: 'a::len word)"
  by (simp add: xor.assoc)

text \<open>
  Claim C1. For every \<^verbatim>\<open>int\<close> value \<open>a\<close> and every position \<open>b\<close> with \<open>0 \<le> b < 32\<close>,
  and for every \<^verbatim>\<open>long long\<close> value \<open>al\<close> and every position \<open>b\<close> with \<open>0 \<le> b < 64\<close>:
  \<^verbatim>\<open>clearBit\<close> returns, and \<^verbatim>\<open>checkBit\<close> on the cleared value and the same position
  returns 0.
\<close>

theorem clearBit_then_checkBit:
  "(0 \<le> sint b \<and> sint b < 32 \<longrightarrow>
      (\<exists>a'. clearBit_int a b = Some a' \<and> checkBit_int a' b = Some 0)) \<and>
   (0 \<le> sint b \<and> sint b < 64 \<longrightarrow>
      (\<exists>a'. clearBit_ll al b = Some a' \<and> checkBit_ll a' b = Some 0))"
proof (intro conjI impI)
  assume b: "0 \<le> sint b \<and> sint b < 32"
  then have n: "nat (sint b) < 32" by arith
  from b have s: "shl_1ULL b = Some (2 ^ nat (sint b))"
    by (simp add: shl_1ULL_Some)
  show "\<exists>a'. clearBit_int a b = Some a' \<and> checkBit_int a' b = Some 0"
    using n clear_int_bit [OF n, of a]
    by (simp add: clearBit_int_def checkBit_int_def s not_not_bit bit_scast_low)
next
  assume b: "0 \<le> sint b \<and> sint b < 64"
  then have n: "nat (sint b) < 64" by arith
  from b have s: "shl_1ULL b = Some (2 ^ nat (sint b))"
    by (simp add: shl_1ULL_Some)
  show "\<exists>a'. clearBit_ll al b = Some a' \<and> checkBit_ll a' b = Some 0"
    using clear_ll_bit [OF n, of al]
    by (simp add: clearBit_ll_def checkBit_ll_def s not_not_bit)
qed

text \<open>
  At position 31, the sign bit of an \<^verbatim>\<open>int\<close>: clearing it in \<open>-1\<close> gives
  \<^verbatim>\<open>INT_MAX\<close>.
\<close>

theorem clearBit_then_checkBit_witness:
  "0 \<le> sint (31 :: cint) \<and> sint (31 :: cint) < 32 \<and>
   clearBit_int (- 1) 31 = Some 2147483647 \<and> checkBit_int 2147483647 31 = Some 0 \<and>
   clearBit_ll (- 1) 31 = Some 18446744071562067967 \<and>
   checkBit_ll 18446744071562067967 31 = Some 0"
proof -
  have c1: "clearBit_int (- 1) 31 = Some 2147483647"
    by code_simp
  have c2: "clearBit_ll (- 1) 31 = Some 18446744071562067967"
    by code_simp
  show ?thesis
    using clearBit_then_checkBit [of 31 "- 1" "- 1"] by (simp add: c1 c2)
qed

text \<open>
  Claim C2. For every \<^verbatim>\<open>int\<close> value \<open>a\<close> and every position \<open>b\<close> with \<open>0 \<le> b < 32\<close>,
  and for every \<^verbatim>\<open>long long\<close> value \<open>al\<close> and every position \<open>b\<close> with \<open>0 \<le> b < 64\<close>:
  \<^verbatim>\<open>toggleBit\<close> applied twice at the same position returns both times and gives back
  the original value.
\<close>

theorem toggleBit_twice:
  "(0 \<le> sint b \<and> sint b < 32 \<longrightarrow>
      (\<exists>a'. toggleBit_int a b = Some a' \<and> toggleBit_int a' b = Some a)) \<and>
   (0 \<le> sint b \<and> sint b < 64 \<longrightarrow>
      (\<exists>a'. toggleBit_ll al b = Some a' \<and> toggleBit_ll a' b = Some al))"
  by (auto simp: toggleBit_int_def toggleBit_ll_def shl_1ULL_def xor_twice)

theorem toggleBit_twice_witness:
  "0 \<le> sint (5 :: cint) \<and> sint (5 :: cint) < 32 \<and>
   toggleBit_int 7 5 = Some 39 \<and> toggleBit_int 39 5 = Some 7 \<and>
   toggleBit_ll 7 5 = Some 39 \<and> toggleBit_ll 39 5 = Some 7"
  using toggleBit_twice [of 5 7 7]
  by (simp add: toggleBit_int_def toggleBit_ll_def shl_1ULL_def)

text \<open>
  Claim C8. For every \<^verbatim>\<open>int\<close> value \<open>a\<close> and every position \<open>b\<close> with \<open>0 \<le> b < 32\<close>,
  and for every \<^verbatim>\<open>long long\<close> value \<open>al\<close> and every position \<open>b\<close> with \<open>0 \<le> b < 64\<close>:
  \<^verbatim>\<open>setBit\<close> returns, and \<^verbatim>\<open>checkBit\<close> on the new value and the same position returns
  1. Moreover \<^verbatim>\<open>checkBit\<close> returns 0 or 1 at every position \<open>c\<close> where the shift is
  defined (\<open>0 \<le> c < 64\<close>), and it never returns any other value.
\<close>

theorem setBit_then_checkBit:
  "(0 \<le> sint b \<and> sint b < 32 \<longrightarrow>
      (\<exists>a'. setBit_int a b = Some a' \<and> checkBit_int a' b = Some 1)) \<and>
   (0 \<le> sint b \<and> sint b < 64 \<longrightarrow>
      (\<exists>a'. setBit_ll al b = Some a' \<and> checkBit_ll a' b = Some 1)) \<and>
   (0 \<le> sint c \<and> sint c < 64 \<longrightarrow>
      (checkBit_int x c = Some 0 \<or> checkBit_int x c = Some 1) \<and>
      (checkBit_ll xl c = Some 0 \<or> checkBit_ll xl c = Some 1)) \<and>
   checkBit_int x c \<in> {None, Some 0, Some 1} \<and>
   checkBit_ll xl c \<in> {None, Some 0, Some 1}"
proof (intro conjI impI)
  assume b: "0 \<le> sint b \<and> sint b < 32"
  then have n: "nat (sint b) < 32" by arith
  from b have s: "shl_1ULL b = Some (2 ^ nat (sint b))"
    by (simp add: shl_1ULL_Some)
  show "\<exists>a'. setBit_int a b = Some a' \<and> checkBit_int a' b = Some 1"
    using n set_int_bit [OF n, of a]
    by (simp add: setBit_int_def checkBit_int_def s not_not_bit bit_scast_low)
next
  assume b: "0 \<le> sint b \<and> sint b < 64"
  then have n: "nat (sint b) < 64" by arith
  from b have s: "shl_1ULL b = Some (2 ^ nat (sint b))"
    by (simp add: shl_1ULL_Some)
  show "\<exists>a'. setBit_ll al b = Some a' \<and> checkBit_ll a' b = Some 1"
    using set_ll_bit [OF n, of al]
    by (simp add: setBit_ll_def checkBit_ll_def s not_not_bit)
next
  assume c: "0 \<le> sint c \<and> sint c < 64"
  then have s: "shl_1ULL c = Some (2 ^ nat (sint c))"
    by (simp add: shl_1ULL_Some)
  show "checkBit_int x c = Some 0 \<or> checkBit_int x c = Some 1"
    using not_not_cases by (simp add: checkBit_int_def s)
  show "checkBit_ll xl c = Some 0 \<or> checkBit_ll xl c = Some 1"
    using not_not_cases by (simp add: checkBit_ll_def s)
next
  show "checkBit_int x c \<in> {None, Some 0, Some 1}"
    using not_not_cases by (auto simp: checkBit_int_def split: option.splits)
  show "checkBit_ll xl c \<in> {None, Some 0, Some 1}"
    using not_not_cases by (auto simp: checkBit_ll_def split: option.splits)
qed

text \<open>
  Setting bit 31 of the \<^verbatim>\<open>int\<close> 0 gives \<^verbatim>\<open>INT_MIN\<close>; at position 40 \<^verbatim>\<open>checkBit\<close> sees
  the extended sign of a negative \<^verbatim>\<open>int\<close>.
\<close>

theorem setBit_then_checkBit_witness:
  "0 \<le> sint (31 :: cint) \<and> sint (31 :: cint) < 32 \<and>
   setBit_int 0 31 = Some (- 2147483648) \<and> checkBit_int (- 2147483648) 31 = Some 1 \<and>
   setBit_ll 0 31 = Some 2147483648 \<and> checkBit_ll 2147483648 31 = Some 1 \<and>
   0 \<le> sint (40 :: cint) \<and> sint (40 :: cint) < 64 \<and>
   checkBit_int (- 5) 40 = Some 1 \<and> checkBit_ll 5 40 = Some 0"
  using setBit_then_checkBit [of 31 0 0 40 "- 5" 5]
  by (simp add: setBit_int_def setBit_ll_def checkBit_int_def checkBit_ll_def shl_1ULL_def
      not_not_def)

section \<open>Properties of amin and amax\<close>




text \<open>For two arguments of one linearly ordered type the helpers are \<open>min\<close> and \<open>max\<close>.\<close>

lemma amin_amax_same_type:
  fixes x y :: "'a::linorder"
  shows "amin (<) (\<lambda>y. y) x y = min x y \<and> amax (>) (\<lambda>y. y) x y = max x y"
  by (auto simp: amin_def amax_def min_def max_def)

section \<open>Properties of print\<close>

lemma sz_small: "length v < 2 ^ 31 \<Longrightarrow> sz v = int (length v)"
  by (simp add: sz_def signed_of_nat signed_take_bit_int_eq_self)

lemma sz_Nil: "sz [] = 0"
  by (simp add: sz_def)

lemma sz_wrapped: "sz (replicate 2147483648 x) = - 2147483648"
  by (simp add: sz_def signed_of_nat)

text \<open>
  The loop started at an index \<open>k\<close> inside the vector writes the elements from \<open>k\<close> on,
  a space after each but the last and a newline after the last.
\<close>

lemma print_loop_from:
  assumes small: "length v < 2 ^ 31"
  shows "k < length v \<Longrightarrow>
    print_loop shw v (int k) cout =
      cout @ concat (map (\<lambda>x. shw x @ '' '') (butlast (drop k v))) @ shw (last v) @ [CHR 0x0A]"
proof (induction "length v - k" arbitrary: k cout)
  case 0
  then show ?case by simp
next
  case (Suc d)
  have szv: "sz v = int (length v)"
    using small by (rule sz_small)
  have dropk: "drop k v = v ! k # drop (Suc k) v"
    using Suc.prems by (simp add: Cons_nth_drop_Suc)
  show ?case
  proof (cases "Suc k = length v")
    case True
    then have "v \<noteq> []" and "k = length v - 1"
      by auto
    then have lastv: "last v = v ! k"
      by (simp add: last_conv_nth)
    have stop: "print_loop shw v (int k + 1) c = c" for c
      using True by (subst print_loop.simps) (simp add: szv)
    have "print_loop shw v (int k) cout = cout @ shw (v ! k) @ [CHR 0x0A]"
      using True Suc.prems by (subst print_loop.simps) (auto simp: szv stop)
    then show ?thesis
      using True by (simp add: dropk lastv)
  next
    case False
    then have lt: "Suc k < length v"
      using Suc.prems by simp
    have d: "d = length v - Suc k"
      using Suc.hyps(2) by simp
    have ih: "print_loop shw v (int (Suc k)) c =
        c @ concat (map (\<lambda>x. shw x @ '' '') (butlast (drop (Suc k) v)))
          @ shw (last v) @ [CHR 0x0A]"
      for c
      using Suc.hyps(1) [OF d lt] .
    have ne: "drop (Suc k) v \<noteq> []"
      using lt by simp
    have step: "print_loop shw v (int k) cout =
        print_loop shw v (int (Suc k)) (cout @ shw (v ! k) @ '' '')"
      using lt by (subst print_loop.simps) (auto simp: szv add.commute)
    have "print_loop shw v (int k) cout =
        (cout @ shw (v ! k) @ '' '') @
          concat (map (\<lambda>x. shw x @ '' '') (butlast (drop (Suc k) v)))
          @ shw (last v) @ [CHR 0x0A]"
      by (simp only: step ih)
    then show ?thesis
      using ne by (simp add: dropk)
  qed
qed

text \<open>
  Claim C3 fails as stated: \<^verbatim>\<open>sz(v)\<close> is an \<^verbatim>\<open>int\<close>. For a vector of \<open>2^31\<close> elements it
  is \<open>-2^31\<close>, the loop condition \<^verbatim>\<open>0 < sz(v)\<close> is false at once and \<^verbatim>\<open>print\<close> writes
  nothing.
\<close>

theorem print_vec_huge_counterexample:
  "replicate (2 ^ 31) CHR ''a'' \<noteq> [] \<and>
   print_vec (\<lambda>c. [c]) (replicate (2 ^ 31) CHR ''a'') [] = []"
proof -
  have "replicate (2 ^ 31) CHR ''a'' \<noteq> []"
    by (simp add: replicate_empty)
  moreover have "print_vec (\<lambda>c. [c]) (replicate (2 ^ 31) CHR ''a'') [] = []"
    unfolding print_vec_def by (subst print_loop.simps) (simp add: sz_wrapped)
  ultimately show ?thesis by simp
qed

text \<open>
  Claim C3, amended. For every non-empty vector \<open>v\<close> with fewer than \<open>2^31\<close> elements,
  \<^verbatim>\<open>print(v)\<close> appends to standard output the elements of \<open>v\<close> in index order, a single
  space after every element except the last, and exactly one newline after the last
  element (no trailing space).
\<close>

theorem print_vec_nonempty:
  "v \<noteq> [] \<and> length v < 2 ^ 31 \<longrightarrow>
     print_vec shw v cout =
       cout @ concat (map (\<lambda>x. shw x @ '' '') (butlast v)) @ shw (last v) @ [CHR 0x0A]"
proof
  assume a: "v \<noteq> [] \<and> length v < 2 ^ 31"
  then have "0 < length v" by simp
  from print_loop_from [of v 0 shw cout] a this
  show "print_vec shw v cout =
       cout @ concat (map (\<lambda>x. shw x @ '' '') (butlast v)) @ shw (last v) @ [CHR 0x0A]"
    by (simp add: print_vec_def)
qed

theorem print_vec_nonempty_witness:
  "[1, - 25, 300 :: int] \<noteq> [] \<and> length [1, - 25, 300 :: int] < 2 ^ 31 \<and>
   print_vec dec_int [1, - 25, 300] ''out:'' = ''out:1 -25 300'' @ [CHR 0x0A]"
proof -
  have d: "dec_int 1 = ''1''" "dec_int (- 25) = ''-25''" "dec_int 300 = ''300''"
    by (simp_all add: dec_int_def dec_nat.simps digit_char_def)
  show ?thesis
    using print_vec_nonempty [of "[1, - 25, 300]" dec_int "''out:''"] by (simp add: d)
qed

lemma sz_wrapped_more: "sz (replicate 2147483649 x) = - 2147483647"
  by (simp add: sz_def signed_of_nat)

text \<open>
  Claim C9 fails as stated: it says that for a non-empty vector a trailing newline is
  always produced. For a vector of \<open>2^31 + 1\<close> elements \<^verbatim>\<open>sz(v)\<close> is \<open>-2^31 + 1\<close>, the loop
  never runs, and \<^verbatim>\<open>print\<close> writes nothing, so no newline either.
\<close>

theorem print_vec_no_newline_counterexample:
  "replicate (2 ^ 31 + 1) CHR ''b'' \<noteq> [] \<and>
   print_vec (\<lambda>c. [c]) (replicate (2 ^ 31 + 1) CHR ''b'') ''ab'' = ''ab'' \<and>
   \<not> (\<exists>w. print_vec (\<lambda>c. [c]) (replicate (2 ^ 31 + 1) CHR ''b'') ''ab''
           = ''ab'' @ w @ [CHR 0x0A])"
proof -
  have ne: "replicate (2 ^ 31 + 1) CHR ''b'' \<noteq> []"
    by (simp add: replicate_empty)
  have p: "print_vec (\<lambda>c. [c]) (replicate (2 ^ 31 + 1) CHR ''b'') ''ab'' = ''ab''"
    unfolding print_vec_def by (subst print_loop.simps) (simp add: sz_wrapped_more)
  show ?thesis
    by (simp only: p) (simp add: ne)
qed

text \<open>
  Claim C9, amended. For the empty vector \<^verbatim>\<open>print(v)\<close> writes nothing at all to standard
  output: the text written so far is returned as it is, so in particular no newline is
  emitted. In contrast, for every non-empty vector with fewer than \<open>2^31\<close> elements the
  text that \<^verbatim>\<open>print(v)\<close> appends ends in a newline.
\<close>

theorem print_vec_empty_and_newline:
  "print_vec shw [] cout = cout \<and>
   (v \<noteq> [] \<and> length v < 2 ^ 31 \<longrightarrow>
      (\<exists>w. print_vec shw v cout = cout @ w @ [CHR 0x0A]))"
proof (intro conjI impI)
  show "print_vec shw [] cout = cout"
    unfolding print_vec_def by (subst print_loop.simps) (simp add: sz_Nil)
next
  assume a: "v \<noteq> [] \<and> length v < 2 ^ 31"
  then have "0 < length v" by simp
  from print_loop_from [of v 0 shw cout] a this
  have "print_vec shw v cout =
      cout @ (concat (map (\<lambda>x. shw x @ '' '') (butlast v)) @ shw (last v)) @ [CHR 0x0A]"
    by (simp add: print_vec_def)
  then show "\<exists>w. print_vec shw v cout = cout @ w @ [CHR 0x0A]"
    by blast
qed

theorem print_vec_empty_and_newline_witness:
  "print_vec dec_int [] ''abc'' = ''abc'' \<and>
   [7 :: int] \<noteq> [] \<and> length [7 :: int] < 2 ^ 31 \<and>
   (\<exists>w. print_vec dec_int [7] ''abc'' = ''abc'' @ w @ [CHR 0x0A])"
  using print_vec_empty_and_newline [of dec_int "''abc''" "[7]"] by simp

section \<open>Properties of the debug stringifier\<close>

text \<open>Every overload only appends to the error stream, when it returns.\<close>

lemma cerr_builtin_append:
  "cerr_int xi b cerr = cerr @ cerr_int xi b []"
  "cerr_long xl b cerr = cerr @ cerr_long xl b []"
  "cerr_ll xl b cerr = cerr @ cerr_ll xl b []"
  "cerr_unsigned xi b cerr = cerr @ cerr_unsigned xi b []"
  "cerr_ulong xl b cerr = cerr @ cerr_ulong xl b []"
  "cerr_ull xl b cerr = cerr @ cerr_ull xl b []"
  "cerr_float fmt xf b cerr = cerr @ cerr_float fmt xf b []"
  "cerr_double fmt xd b cerr = cerr @ cerr_double fmt xd b []"
  "cerr_long_double fmt xe b cerr = cerr @ cerr_long_double fmt xe b []"
  "cerr_char xc b cerr = cerr @ cerr_char xc b []"
  "cerr_cstr xs b cerr = cerr @ cerr_cstr xs b []"
  "cerr_string xs b cerr = cerr @ cerr_string xs b []"
  "cerr_bool xb b cerr = cerr @ cerr_bool xb b []"
  by (simp_all add: cerr_int_def cerr_long_def cerr_ll_def cerr_unsigned_def cerr_ulong_def
      cerr_ull_def cerr_float_def cerr_double_def cerr_long_double_def cerr_char_def
      cerr_cstr_def cerr_string_def cerr_bool_def toBin_def Let_def)

lemma append_append_fun: "(@) (a @ b) = (\<lambda>x. a @ b @ x)"
  by (rule ext) simp

lemma bitset_loop_append:
  "bitset_loop x i cerr = map_option ((@) cerr) (bitset_loop x i [])"
proof (induction "length x - nat i" arbitrary: i cerr rule: less_induct)
  case less
  show ?case
  proof (cases "0 \<le> i \<and> i < int (length x) \<and> i \<noteq> INT_MAX")
    case True
    let ?c = "if x ! nat i then ''1'' else ''0''"
    from True have m: "length x - nat (i + 1) < length x - nat i"
      by auto
    have l: "bitset_loop x i cerr = bitset_loop x (i + 1) (cerr @ ?c)"
      using True by (subst bitset_loop.simps) (simp add: Let_def)
    have r: "bitset_loop x i [] = bitset_loop x (i + 1) ?c"
      using True by (subst bitset_loop.simps) (simp add: Let_def)
    show ?thesis
      unfolding l r
      by (subst less [OF m], subst (2) less [OF m])
        (simp add: option.map_comp comp_def append_append_fun)
  next
    case False
    then show ?thesis
      by (subst bitset_loop.simps, subst (2) bitset_loop.simps) (auto simp: Let_def)
  qed
qed

text \<open>
  The pair overload in terms of the renderings of the two parts; the rendering of a
  value is what \<^verbatim>\<open>_cerr\<close> writes for it to an empty stream.
\<close>

lemma cerr_pair_from_parts:
  assumes f: "\<And>c. cerr_pval fmt xF b c = map_option ((@) c) (cerr_pval fmt xF b [])"
    and s: "\<And>c. cerr_pval fmt xS b c = map_option ((@) c) (cerr_pval fmt xS b [])"
  shows "cerr_pval fmt (PPair xF xS) b cerr =
     (case cerr_pval fmt xF b [] of
        None \<Rightarrow> None
      | Some ra \<Rightarrow>
          (case cerr_pval fmt xS b [] of
             None \<Rightarrow> None
           | Some rc \<Rightarrow> Some (cerr @ ''{'' @ ra @ '', '' @ rc @ ''}'')))"
proof (cases "cerr_pval fmt xF b []")
  case None
  then show ?thesis
    using f [of "cerr @ ''{''"] by simp
next
  case (Some ra)
  then have 1: "cerr_pval fmt xF b (cerr @ ''{'') = Some ((cerr @ ''{'') @ ra)"
    using f [of "cerr @ ''{''"] by simp
  show ?thesis
  proof (cases "cerr_pval fmt xS b []")
    case None
    then show ?thesis
      using 1 Some s [of "((cerr @ ''{'') @ ra) @ '', ''"] by simp
  next
    case (Some rc)
    then show ?thesis
      using 1 \<open>cerr_pval fmt xF b [] = Some ra\<close> s [of "((cerr @ ''{'') @ ra) @ '', ''"]
      by simp
  qed
qed

lemma cerr_pval_append:
  "cerr_pval fmt p b cerr = map_option ((@) cerr) (cerr_pval fmt p b [])"
proof (induction p arbitrary: cerr)
  case (PBitset x)
  show ?case
    by (simp add: cerr_bitset_def bitset_loop_append [of x 0 cerr])
next
  case (PPair xF xS)
  note r = cerr_pair_from_parts [of fmt xF b xS, OF PPair.IH(1) PPair.IH(2)]
  show ?case
    unfolding r [of cerr] r [of "[]"] by (simp split: option.splits)
qed (simp_all add: cerr_builtin_append [symmetric])



text \<open>The container overload also only appends, when it returns.\<close>

lemma cerr_elems_append:
  assumes el: "\<And>i c. i \<in> set xs \<Longrightarrow>
      cerr_dval fmt i b c = map_option ((@) c) (cerr_dval fmt i b [])"
  shows "cerr_elems fmt xs f b cerr = map_option ((@) cerr) (cerr_elems fmt xs f b [])"
  using el
proof (induction xs arbitrary: f cerr)
  case Nil
  show ?case by simp
next
  case (Cons i rest)
  let ?sep = "if f \<noteq> 0 then '', '' else ''''"
  have i1: "cerr_dval fmt i b (cerr @ ?sep)
      = map_option ((@) (cerr @ ?sep)) (cerr_dval fmt i b [])"
    by (rule Cons.prems) simp
  have i2: "cerr_dval fmt i b ?sep = map_option ((@) ?sep) (cerr_dval fmt i b [])"
    by (rule Cons.prems) simp
  have r: "cerr_elems fmt rest g b c = map_option ((@) c) (cerr_elems fmt rest g b [])"
    for g c
    by (rule Cons.IH, rule Cons.prems) simp
  show ?case
  proof (cases "cerr_dval fmt i b []")
    case None
    then show ?thesis
      using i1 i2 by simp
  next
    case (Some w)
    have "cerr_elems fmt (i # rest) f b cerr =
        (if f = INT_MAX then None else cerr_elems fmt rest (f + 1) b ((cerr @ ?sep) @ w))"
      using i1 Some by simp
    also have "\<dots> = map_option ((@) cerr)
        (if f = INT_MAX then None else cerr_elems fmt rest (f + 1) b (?sep @ w))"
      by (subst r, subst (2) r) (simp add: option.map_comp comp_def append_append_fun)
    also have "\<dots> = map_option ((@) cerr) (cerr_elems fmt (i # rest) f b [])"
      using i2 Some by simp
    finally show ?thesis .
  qed
qed

lemma cerr_dval_append:
  "cerr_dval fmt v b cerr = map_option ((@) cerr) (cerr_dval fmt v b [])"
proof (induction v arbitrary: cerr)
  case (Plain p)
  show ?case
    using cerr_pval_append [of fmt p b cerr] by simp
next
  case (Container xs)
  have e: "cerr_elems fmt xs f b c = map_option ((@) c) (cerr_elems fmt xs f b [])" for f c
    by (rule cerr_elems_append) (rule Container.IH)
  show ?case
    by (simp add: e [of 0 "cerr @ ''{''"] e [of 0 "''{''"] option.map_comp comp_def
        append_append_fun split: option.splits)
qed

section \<open>Properties of the debug macros and of main\<close>

text \<open>
  What \<^verbatim>\<open>err\<close> and \<^verbatim>\<open>errbin\<close> write outside judge mode: for every argument a line with
  its name, \<^verbatim>\<open> = \<close> and its rendering, and a final empty line. \<open>rs\<close> lists the
  renderings of the arguments.
\<close>

lemma err_writes:
  assumes "length args \<le> length it"
    and "map (\<lambda>a. cerr_dval fmt a False []) args = map Some rs"
  shows "err fmt False it args cerr =
     Some (cerr @ concat (map (\<lambda>(name, r). name @ '' = '' @ r @ endl) (zip it rs)) @ endl)"
  using assms
proof (induction args arbitrary: it rs cerr)
  case Nil
  then show ?case by simp
next
  case (Cons a args)
  from Cons.prems(1) obtain name it1 where it: "it = name # it1"
    by (cases it) auto
  from Cons.prems(2) obtain r rs1 where rs: "rs = r # rs1"
    by (cases rs) auto
  from Cons.prems(2) rs have r: "cerr_dval fmt a False [] = Some r"
    and rest: "map (\<lambda>a. cerr_dval fmt a False []) args = map Some rs1"
    by simp_all
  have a: "cerr_dval fmt a False (cerr @ name @ '' = '') = Some ((cerr @ name @ '' = '') @ r)"
    by (subst cerr_dval_append) (simp add: r)
  have len: "length args \<le> length it1"
    using Cons.prems(1) it by simp
  note ih = Cons.IH [OF len rest, of "((cerr @ name @ '' = '') @ r) @ endl"]
  show ?case
    using a ih by (simp add: it rs)
qed

lemma errbin_writes:
  assumes "length args \<le> length it"
    and "map (\<lambda>a. cerr_dval fmt a True []) args = map Some rs"
  shows "errbin fmt False it args cerr =
     Some (cerr @ concat (map (\<lambda>(name, r). name @ '' = '' @ r @ endl) (zip it rs)) @ endl)"
  using assms
proof (induction args arbitrary: it rs cerr)
  case Nil
  then show ?case by simp
next
  case (Cons a args)
  from Cons.prems(1) obtain name it1 where it: "it = name # it1"
    by (cases it) auto
  from Cons.prems(2) obtain r rs1 where rs: "rs = r # rs1"
    by (cases rs) auto
  from Cons.prems(2) rs have r: "cerr_dval fmt a True [] = Some r"
    and rest: "map (\<lambda>a. cerr_dval fmt a True []) args = map Some rs1"
    by simp_all
  have a: "cerr_dval fmt a True (cerr @ name @ '' = '') = Some ((cerr @ name @ '' = '') @ r)"
    by (subst cerr_dval_append) (simp add: r)
  have len: "length args \<le> length it1"
    using Cons.prems(1) it by simp
  note ih = Cons.IH [OF len rest, of "((cerr @ name @ '' = '') @ r) @ endl"]
  show ?case
    using a ih by (simp add: it rs)
qed

lemma main_judge:
  "main True start end st = st\<lparr>sync_with_stdio := False, cin_tied := False\<rparr>"
  by (simp add: main_def solve_def)

lemma main_local:
  "main False start end st =
     st\<lparr>stdin_file := Reopened ''input.txt'' ''r'', stdout_file := Reopened ''output.txt'' ''w'',
        sync_with_stdio := False, cin_tied := False,
        cerr_written := cerr_written st @ endl @ ''Time: ''
          @ dec_int (elapsed_ms start end) @ ''ms'' @ endl\<rparr>"
  by (simp add: main_def solve_def freopen_def)

text \<open>
  When the clock has not run backwards and its readings are not negative, the
  subtraction does not wrap and the count is the elapsed time in whole milliseconds.
\<close>

lemma elapsed_ms_forward:
  assumes "0 \<le> sint start" and "sint start \<le> sint end"
  shows "elapsed_ms start end = (sint end - sint start) div 1000000"
proof -
  have "sint end < 2 ^ 63"
    using sint_lt [of "end"] by simp
  then have "sint (end - start) = sint end - sint start"
    using assms by (simp add: sint_word_ariths signed_take_bit_int_eq_self)
  moreover have "cpp_div k 1000000 = k div 1000000" if "0 \<le> k" for k
    using that by (cases "k = 0") (simp_all add: cpp_div_def sgn_if)
  ultimately show ?thesis
    using assms by (simp add: elapsed_ms_def)
qed

lemma words_example: "istream_words (replace_commas ''x, v'') = [''x'', ''v'']"
  by (simp add: replace_commas_def istream_words.simps isspace_def)

text \<open>
  Claim C5. The build flag \<^verbatim>\<open>ONLINE_JUDGE\<close> is the boolean \<open>judge\<close>.

  When the flag is present: a program started on the terminal streams still reads from
  standard input and writes to standard output after \<^verbatim>\<open>main\<close> (from any state, \<^verbatim>\<open>main\<close>
  leaves both streams attached as they were); \<^verbatim>\<open>debug\<close> and \<^verbatim>\<open>debugbin\<close> return the
  error stream unchanged; and \<^verbatim>\<open>main\<close> writes nothing to the error stream, so no timing
  line.

  When the flag is absent: after \<^verbatim>\<open>main\<close> standard input is attached to
  \<^verbatim>\<open>input.txt\<close> for reading and standard output to \<^verbatim>\<open>output.txt\<close> for writing.
  \<^verbatim>\<open>debug\<close> and \<^verbatim>\<open>debugbin\<close>, called with a text that holds a word for every argument
  and with arguments that have the renderings \<open>rs\<close>, append to the error stream one line
  per argument, made of the argument's word, \<^verbatim>\<open> = \<close> and its rendering, and then an
  empty line. \<^verbatim>\<open>main\<close> appends to the error stream a newline, \<^verbatim>\<open>Time: \<close>, the count of
  milliseconds computed from the two 64-bit clock readings, \<^verbatim>\<open>ms\<close> and a newline; when
  the readings are not negative and the clock has not run backwards, the count is the
  elapsed time in whole milliseconds.
\<close>

theorem judge_flag_toggles:
  "stdin_file (main True start end process_start) = Terminal \<and>
   stdout_file (main True start end process_start) = Terminal \<and>
   stdin_file (main True start end st) = stdin_file st \<and>
   stdout_file (main True start end st) = stdout_file st \<and>
   debug fmt True text args cerr = Some cerr \<and>
   debugbin fmt True text args cerr = Some cerr \<and>
   cerr_written (main True start end st) = cerr_written st \<and>
   stdin_file (main False start end st) = Reopened ''input.txt'' ''r'' \<and>
   stdout_file (main False start end st) = Reopened ''output.txt'' ''w'' \<and>
   (length args \<le> length (istream_words (replace_commas text)) \<and>
    map (\<lambda>a. cerr_dval fmt a False []) args = map Some rs \<longrightarrow>
      debug fmt False text args cerr =
        Some (cerr @
          concat (map (\<lambda>(name, r). name @ '' = '' @ r @ [CHR 0x0A])
            (zip (istream_words (replace_commas text)) rs)) @ [CHR 0x0A])) \<and>
   (length args \<le> length (istream_words (replace_commas text)) \<and>
    map (\<lambda>a. cerr_dval fmt a True []) args = map Some rsb \<longrightarrow>
      debugbin fmt False text args cerr =
        Some (cerr @
          concat (map (\<lambda>(name, r). name @ '' = '' @ r @ [CHR 0x0A])
            (zip (istream_words (replace_commas text)) rsb)) @ [CHR 0x0A])) \<and>
   cerr_written (main False start end st) =
     cerr_written st @ [CHR 0x0A] @ ''Time: ''
       @ dec_int (cpp_div (sint (end - start)) 1000000) @ ''ms'' @ [CHR 0x0A] \<and>
   (0 \<le> sint start \<and> sint start \<le> sint end \<longrightarrow>
      cerr_written (main False start end st) =
        cerr_written st @ [CHR 0x0A] @ ''Time: ''
          @ dec_int ((sint end - sint start) div 1000000) @ ''ms'' @ [CHR 0x0A])"
proof -
  have d: "length args \<le> length (istream_words (replace_commas text)) \<and>
      map (\<lambda>a. cerr_dval fmt a False []) args = map Some rs \<longrightarrow>
      debug fmt False text args cerr =
        Some (cerr @
          concat (map (\<lambda>(name, r). name @ '' = '' @ r @ [CHR 0x0A])
            (zip (istream_words (replace_commas text)) rs)) @ [CHR 0x0A])"
    using err_writes [of args "istream_words (replace_commas text)" fmt rs cerr]
    by (simp add: debug_def endl_def)
  have db: "length args \<le> length (istream_words (replace_commas text)) \<and>
      map (\<lambda>a. cerr_dval fmt a True []) args = map Some rsb \<longrightarrow>
      debugbin fmt False text args cerr =
        Some (cerr @
          concat (map (\<lambda>(name, r). name @ '' = '' @ r @ [CHR 0x0A])
            (zip (istream_words (replace_commas text)) rsb)) @ [CHR 0x0A])"
    using errbin_writes [of args "istream_words (replace_commas text)" fmt rsb cerr]
    by (simp add: debugbin_def endl_def)
  have j: "debug fmt True text args cerr = Some cerr"
    "debugbin fmt True text args cerr = Some cerr"
    by (simp_all add: debug_def debugbin_def)
  have t: "cerr_written (main False start end st) =
     cerr_written st @ [CHR 0x0A] @ ''Time: ''
       @ dec_int (cpp_div (sint (end - start)) 1000000) @ ''ms'' @ [CHR 0x0A]"
    by (simp add: main_local endl_def elapsed_ms_def)
  have tf: "0 \<le> sint start \<and> sint start \<le> sint end \<longrightarrow>
      cerr_written (main False start end st) =
        cerr_written st @ [CHR 0x0A] @ ''Time: ''
          @ dec_int ((sint end - sint start) div 1000000) @ ''ms'' @ [CHR 0x0A]"
    by (simp add: main_local endl_def elapsed_ms_forward)
  have m: "stdin_file (main True start end process_start) = Terminal"
    "stdout_file (main True start end process_start) = Terminal"
    "stdin_file (main True start end st) = stdin_file st"
    "stdout_file (main True start end st) = stdout_file st"
    "cerr_written (main True start end st) = cerr_written st"
    "stdin_file (main False start end st) = Reopened ''input.txt'' ''r''"
    "stdout_file (main False start end st) = Reopened ''output.txt'' ''w''"
    by (simp_all add: main_judge main_local process_start_def)
  show ?thesis
    by (intro conjI m j d db t tf)
qed

text \<open>
  The call \<^verbatim>\<open>debug(x, v)\<close> with an \<^verbatim>\<open>int x = 1\<close> and a \<^verbatim>\<open>vector<int> v\<close> holding 3,
  and a run of \<^verbatim>\<open>main\<close> between the clock readings 1000 and 2500999.
\<close>

theorem judge_flag_toggles_witness:
  "length [Plain (PInt 1), Container [Plain (PInt 3)]]
     \<le> length (istream_words (replace_commas ''x, v'')) \<and>
   map (\<lambda>a. cerr_dval \<lparr>put_float = \<lambda>x. ''1.5'', put_double = \<lambda>x. ''0.25'', put_long_double = \<lambda>x. ''2''\<rparr> a False [])
     [Plain (PInt 1), Container [Plain (PInt 3)]] = map Some [''1'', ''{3}''] \<and>
   map (\<lambda>a. cerr_dval \<lparr>put_float = \<lambda>x. ''1.5'', put_double = \<lambda>x. ''0.25'', put_long_double = \<lambda>x. ''2''\<rparr> a True [])
     [Plain (PInt 1), Container [Plain (PInt 3)]]
     = map Some [''1[00000000000000000000000000000001]'',
         ''{3[00000000000000000000000000000011]}''] \<and>
   debug \<lparr>put_float = \<lambda>x. ''1.5'', put_double = \<lambda>x. ''0.25'', put_long_double = \<lambda>x. ''2''\<rparr> False ''x, v'' [Plain (PInt 1), Container [Plain (PInt 3)]] []
     = Some (''x = 1'' @ [CHR 0x0A] @ ''v = {3}'' @ [CHR 0x0A, CHR 0x0A]) \<and>
   debugbin \<lparr>put_float = \<lambda>x. ''1.5'', put_double = \<lambda>x. ''0.25'', put_long_double = \<lambda>x. ''2''\<rparr> False ''x, v'' [Plain (PInt 1), Container [Plain (PInt 3)]] []
     = Some (''x = 1[00000000000000000000000000000001]'' @ [CHR 0x0A]
         @ ''v = {3[00000000000000000000000000000011]}'' @ [CHR 0x0A, CHR 0x0A]) \<and>
   debug \<lparr>put_float = \<lambda>x. ''1.5'', put_double = \<lambda>x. ''0.25'', put_long_double = \<lambda>x. ''2''\<rparr> True ''x, v'' [Plain (PInt 1), Container [Plain (PInt 3)]] [] = Some [] \<and>
   stdin_file (main True 1000 2500999 process_start) = Terminal \<and>
   stdin_file (main False 1000 2500999 process_start) = Reopened ''input.txt'' ''r'' \<and>
   cerr_written (main True 1000 2500999 process_start) = [] \<and>
   0 \<le> sint (1000 :: 64 word) \<and> sint (1000 :: 64 word) \<le> sint (2500999 :: 64 word) \<and>
   cerr_written (main False 1000 2500999 process_start)
     = [CHR 0x0A] @ ''Time: 2ms'' @ [CHR 0x0A]"
proof -
  let ?fmt = "\<lparr>put_float = \<lambda>x. ''1.5'', put_double = \<lambda>x. ''0.25'', put_long_double = \<lambda>x. ''2''\<rparr>"
  let ?args = "[Plain (PInt 1), Container [Plain (PInt 3)]]"
  note T = judge_flag_toggles [of 1000 2500999 process_start ?fmt "''x, v''" ?args "[]"
      "[''1'', ''{3}'']"
      "[''1[00000000000000000000000000000001]'', ''{3[00000000000000000000000000000011]}'']"]
  have len: "length ?args \<le> length (istream_words (replace_commas ''x, v''))"
    by (simp add: words_example)
  have d1: "dec_int 1 = ''1''" and d3: "dec_int 3 = ''3''"
    by (simp_all add: dec_int_def dec_nat.simps digit_char_def)
  have b1: "bitset_string (1 :: cint) = ''00000000000000000000000000000001''"
    and b3: "bitset_string (3 :: cint) = ''00000000000000000000000000000011''"
    by code_simp+
  have r: "map (\<lambda>a. cerr_dval ?fmt a False []) ?args = map Some [''1'', ''{3}'']"
    by (simp add: cerr_int_def d1 d3 INT_MAX_def)
  have rb: "map (\<lambda>a. cerr_dval ?fmt a True []) ?args
     = map Some [''1[00000000000000000000000000000001]'',
         ''{3[00000000000000000000000000000011]}'']"
    by (simp add: cerr_int_def d1 d3 b1 b3 toBin_def INT_MAX_def)
  have e: "debug ?fmt False ''x, v'' ?args []
     = Some (''x = 1'' @ [CHR 0x0A] @ ''v = {3}'' @ [CHR 0x0A, CHR 0x0A])"
    using T len r by (simp add: words_example)
  have eb: "debugbin ?fmt False ''x, v'' ?args []
     = Some (''x = 1[00000000000000000000000000000001]'' @ [CHR 0x0A]
         @ ''v = {3[00000000000000000000000000000011]}'' @ [CHR 0x0A, CHR 0x0A])"
    using T len rb by (simp add: words_example)
  have j: "debug ?fmt True ''x, v'' ?args [] = Some []"
    using T by blast
  have s1: "stdin_file (main True 1000 2500999 process_start) = Terminal"
    using T by blast
  have s2: "stdin_file (main False 1000 2500999 process_start) = Reopened ''input.txt'' ''r''"
    using T by blast
  have w0: "cerr_written process_start = []"
    by (simp add: process_start_def)
  have w1: "cerr_written (main True 1000 2500999 process_start) = []"
    using T w0 by simp
  have c: "0 \<le> sint (1000 :: 64 word)" "sint (1000 :: 64 word) \<le> sint (2500999 :: 64 word)"
    by simp_all
  have t: "dec_int ((sint (2500999 :: 64 word) - sint (1000 :: 64 word)) div 1000000) = ''2''"
    by (simp add: dec_int_def dec_nat.simps digit_char_def)
  from T c have "cerr_written (main False 1000 2500999 process_start) =
      cerr_written process_start @ [CHR 0x0A] @ ''Time: ''
        @ dec_int ((sint (2500999 :: 64 word) - sint (1000 :: 64 word)) div 1000000)
        @ ''ms'' @ [CHR 0x0A]"
    by blast
  then have w2: "cerr_written (main False 1000 2500999 process_start)
     = [CHR 0x0A] @ ''Time: 2ms'' @ [CHR 0x0A]"
    by (simp only: t w0) simp
  show ?thesis
    by (intro conjI len r rb e eb j s1 s2 w1 c w2)
qed

text \<open>
  Claim C6. For every program state, \<^verbatim>\<open>solve()\<close> returns the state as it was: the count
  of characters extracted from the input and the texts written to standard output and
  to the error stream are unchanged, and so is everything else.
\<close>

theorem solve_changes_nothing:
  "solve st = st \<and> cin_extracted (solve st) = cin_extracted st \<and>
   cout_written (solve st) = cout_written st \<and> cerr_written (solve st) = cerr_written st"
  by (simp add: solve_def)

theorem solve_changes_nothing_witness:
  "solve process_start = process_start \<and> cin_extracted (solve process_start) = 0 \<and>
   cout_written (solve process_start) = [] \<and> cerr_written (solve process_start) = []"
  using solve_changes_nothing [of process_start] by (simp add: process_start_def)

section \<open>Properties of read\<close>

lemma read_Cons:
  "read (arg # args) cin =
     (fst (arg cin) # fst (read args (snd (arg cin))), snd (read args (snd (arg cin))))"
  by (simp split: prod.splits)

lemma length_read: "length (fst (read args cin)) = length args"
  by (induction args arbitrary: cin) (simp_all add: read_Cons del: read.simps(2))

lemma snd_read_fold: "snd (read args cin) = fold (\<lambda>arg c. snd (arg c)) args cin"
  by (induction args arbitrary: cin) (simp_all add: read_Cons del: read.simps(2))

lemma nth_read:
  "i < length args \<Longrightarrow>
     fst (read args cin) ! i = fst ((args ! i) (snd (read (take i args) cin)))"
proof (induction args arbitrary: i cin)
  case Nil
  then show ?case by simp
next
  case (Cons arg args)
  show ?case
  proof (cases i)
    case 0
    then show ?thesis by (simp add: read_Cons del: read.simps(2))
  next
    case (Suc j)
    with Cons.prems have "j < length args" by simp
    from Cons.IH [OF this, of "snd (arg cin)"] Suc show ?thesis
      by (simp add: read_Cons del: read.simps(2))
  qed
qed

text \<open>
  When the unread input starts with a word, extracting a string yields that word and
  leaves the remaining words.
\<close>

lemma cin_string_word:
  assumes "istream_words unread = w # ws"
  shows "fst (cin_string old unread) = w \<and> istream_words (snd (cin_string old unread)) = ws"
  using assms
  by (subst (asm) istream_words.simps) (auto simp: cin_string_def Let_def split: if_splits)

lemma read_strings_words:
  "length olds \<le> length (istream_words unread) \<Longrightarrow>
     fst (read (map cin_string olds) unread) = take (length olds) (istream_words unread)"
proof (induction olds arbitrary: unread)
  case Nil
  show ?case by simp
next
  case (Cons old olds)
  from Cons.prems obtain w ws where ws: "istream_words unread = w # ws"
    by (cases "istream_words unread") auto
  note c = cin_string_word [OF ws, of old]
  have "length olds \<le> length (istream_words (snd (cin_string old unread)))"
    using Cons.prems c ws by simp
  from Cons.IH [OF this] show ?case
    using c ws by (simp add: read_Cons del: read.simps(2))
qed

text \<open>
  Claim C7. For every list of variables passed to \<^verbatim>\<open>read\<close>, a single call makes one
  extraction per variable, strictly from left to right: the call yields one value per
  variable, the \<open>i\<close>-th variable receives what its own extraction yields on the stream as
  the first \<open>i\<close> extractions left it, and the stream ends up as all extractions in
  argument order leave it. For string variables and an input that holds at least as many
  white-space separated words as there are variables, the \<open>i\<close>-th word goes to the
  \<open>i\<close>-th variable.
\<close>

theorem read_left_to_right:
  "length (fst (read args cin)) = length args \<and>
   (\<forall>i < length args.
      fst (read args cin) ! i = fst ((args ! i) (snd (read (take i args) cin)))) \<and>
   snd (read args cin) = fold (\<lambda>arg c. snd (arg c)) args cin \<and>
   (length olds \<le> length (istream_words unread) \<longrightarrow>
      fst (read (map cin_string olds) unread) = take (length olds) (istream_words unread))"
  by (simp add: length_read nth_read snd_read_fold read_strings_words)

text \<open>Two string variables read from the input \<^verbatim>\<open>12 ab cd\<close>.\<close>

theorem read_left_to_right_witness:
  "(1 :: nat) < length [cin_string ''p'', cin_string ''q''] \<and>
   length [''p'', ''q''] \<le> length (istream_words ''12 ab cd'') \<and>
   istream_words ''12 ab cd'' = [''12'', ''ab'', ''cd''] \<and>
   read [cin_string ''p'', cin_string ''q''] ''12 ab cd'' = ([''12'', ''ab''], '' cd'') \<and>
   snd (read (take 1 [cin_string ''p'', cin_string ''q'']) ''12 ab cd'') = '' ab cd'' \<and>
   fst (cin_string ''q'' '' ab cd'') = ''ab''"
proof -
  have c: "cin_string ''p'' ''12 ab cd'' = (''12'', '' ab cd'')"
    "cin_string ''q'' '' ab cd'' = (''ab'', '' cd'')"
    by (simp_all add: cin_string_def isspace_def)
  have w: "istream_words ''12 ab cd'' = [''12'', ''ab'', ''cd'']"
    by (simp add: istream_words.simps isspace_def)
  show ?thesis
    using read_left_to_right [of "[cin_string ''p'', cin_string ''q'']" "''12 ab cd''"
        "[''p'', ''q'']" "''12 ab cd''"]
    by (simp add: c w)
qed

end
